theory Spec2Isabelle
  imports Main "HOL-Library.Word"
begin

section \<open>Values shared by the service functions\<close>

text \<open>
  The service module \<^verbatim>\<open>services/geminiService.ts\<close> is embedded function by function.
  A thrown JavaScript value is a value of \<open>js_error\<close>; a function that may throw returns
  \<open>js_error + 'a\<close> with \<open>Inl\<close> for the thrown value.  \<open>Error m\<close> is \<^verbatim>\<open>new Error(m)\<close>,
  \<open>RangeError\<close> is what a \<^verbatim>\<open>DataView\<close> setter throws for an offset outside its buffer.
\<close>

datatype js_error = Error string | RangeError

type_synonym u8 = "8 word"

definition bind_res :: "js_error + 'a \<Rightarrow> ('a \<Rightarrow> js_error + 'b) \<Rightarrow> js_error + 'b" where
  "bind_res m f = (case m of Inl e \<Rightarrow> Inl e | Inr x \<Rightarrow> f x)"

section \<open>The audio container encoder\<close>

text \<open>
  A \<^verbatim>\<open>DataView\<close> over an \<^verbatim>\<open>ArrayBuffer\<close> is the list of the buffer's bytes; a setter
  returns the updated list.  The numeric argument of a setter is a JavaScript number,
  taken here at its integer values (\<open>int\<close>): \<^verbatim>\<open>setUint8\<close>, \<^verbatim>\<open>setUint16\<close> and
  \<^verbatim>\<open>setUint32\<close> store it modulo \<open>2 ^ 8\<close>, \<open>2 ^ 16\<close> and \<open>2 ^ 32\<close>, which is what
  \<open>word_of_int\<close> into a byte does to each \<open>v div 256 ^ k\<close>.
\<close>

definition setUint8 :: "u8 list \<Rightarrow> nat \<Rightarrow> int \<Rightarrow> js_error + u8 list" where
  "setUint8 view byteOffset v =
     (if length view < byteOffset + 1 then Inl RangeError
      else Inr (view[byteOffset := word_of_int v]))"

definition setUint16 :: "u8 list \<Rightarrow> nat \<Rightarrow> int \<Rightarrow> bool \<Rightarrow> js_error + u8 list" where
  "setUint16 view byteOffset v littleEndian =
     (if length view < byteOffset + 2 then Inl RangeError
      else if littleEndian then
        Inr (view[byteOffset := word_of_int v, byteOffset + 1 := word_of_int (v div 256)])
      else
        Inr (view[byteOffset := word_of_int (v div 256), byteOffset + 1 := word_of_int v]))"

definition setUint32 :: "u8 list \<Rightarrow> nat \<Rightarrow> int \<Rightarrow> bool \<Rightarrow> js_error + u8 list" where
  "setUint32 view byteOffset v littleEndian =
     (if length view < byteOffset + 4 then Inl RangeError
      else if littleEndian then
        Inr (view[byteOffset := word_of_int v,
                  byteOffset + 1 := word_of_int (v div 256),
                  byteOffset + 2 := word_of_int (v div 65536),
                  byteOffset + 3 := word_of_int (v div 16777216)])
      else
        Inr (view[byteOffset := word_of_int (v div 16777216),
                  byteOffset + 1 := word_of_int (v div 65536),
                  byteOffset + 2 := word_of_int (v div 256),
                  byteOffset + 3 := word_of_int v]))"

text \<open>
  \<^verbatim>\<open>writeString\<close>: the loop over \<^verbatim>\<open>i\<close> stores \<^verbatim>\<open>string.charCodeAt(i)\<close> at
  \<^verbatim>\<open>offset + i\<close>; the recursion walks the characters and advances the offset.
\<close>

fun writeString :: "u8 list \<Rightarrow> nat \<Rightarrow> string \<Rightarrow> js_error + u8 list" where
  "writeString view offset [] = Inr view"
| "writeString view offset (c # cs) =
     bind_res (setUint8 view offset (of_char c)) (\<lambda>view. writeString view (offset + 1) cs)"

text \<open>A \<^verbatim>\<open>Blob\<close> is the concatenation of its parts together with its media type.\<close>

record blob =
  blob_bytes :: "u8 list"
  blob_type :: string

definition pcmToWav :: "u8 list \<Rightarrow> int \<Rightarrow> js_error + blob" where
  "pcmToWav pcmData sampleRate =
     (let numChannels = 1;
          bitsPerSample = 16;
          blockAlign = (numChannels * bitsPerSample) div 8;
          byteRate = sampleRate * blockAlign;
          dataSize = int (length pcmData);
          fileSize = 36 + dataSize;
          header = replicate 44 (0 :: u8)
      in
        bind_res (writeString header 0 ''RIFF'') (\<lambda>view.
        bind_res (setUint32 view 4 fileSize True) (\<lambda>view.
        bind_res (writeString view 8 ''WAVE'') (\<lambda>view.
        bind_res (writeString view 12 ''fmt '') (\<lambda>view.
        bind_res (setUint32 view 16 16 True) (\<lambda>view.
        bind_res (setUint16 view 20 1 True) (\<lambda>view.
        bind_res (setUint16 view 22 numChannels True) (\<lambda>view.
        bind_res (setUint32 view 24 sampleRate True) (\<lambda>view.
        bind_res (setUint32 view 28 byteRate True) (\<lambda>view.
        bind_res (setUint16 view 32 blockAlign True) (\<lambda>view.
        bind_res (setUint16 view 34 bitsPerSample True) (\<lambda>view.
        bind_res (writeString view 36 ''data'') (\<lambda>view.
        bind_res (setUint32 view 40 dataSize True) (\<lambda>view.
          Inr \<lparr>blob_bytes = view @ pcmData, blob_type = ''audio/wav''\<rparr>))))))))))))))"

text \<open>
  Reading a header field back, as \<^verbatim>\<open>DataView.getUint16\<close> and \<^verbatim>\<open>getUint32\<close> do with
  \<^verbatim>\<open>littleEndian = true\<close>; used to state what the fields hold.
\<close>

definition getUint16 :: "u8 list \<Rightarrow> nat \<Rightarrow> int" where
  "getUint16 bs off = uint (bs ! off) + 256 * uint (bs ! (off + 1))"

definition getUint32 :: "u8 list \<Rightarrow> nat \<Rightarrow> int" where
  "getUint32 bs off =
     uint (bs ! off) + 256 * uint (bs ! (off + 1)) + 65536 * uint (bs ! (off + 2))
       + 16777216 * uint (bs ! (off + 3))"

text \<open>The header written for a payload of \<open>dataSize\<close> bytes, byte by byte.\<close>

definition le32 :: "int \<Rightarrow> u8 list" where
  "le32 v = [word_of_int v, word_of_int (v div 256), word_of_int (v div 65536),
             word_of_int (v div 16777216)]"

definition le16 :: "int \<Rightarrow> u8 list" where
  "le16 v = [word_of_int v, word_of_int (v div 256)]"

definition wav_header :: "int \<Rightarrow> int \<Rightarrow> u8 list" where
  "wav_header dataSize sampleRate =
     map of_char ''RIFF'' @ le32 (36 + dataSize) @ map of_char ''WAVE'' @
     map of_char ''fmt '' @ le32 16 @ le16 1 @ le16 1 @ le32 sampleRate @
     le32 (sampleRate * 2) @ le16 2 @ le16 16 @ map of_char ''data'' @ le32 dataSize"

section \<open>JavaScript values that may be absent\<close>

text \<open>
  An optional string (\<^verbatim>\<open>string | undefined\<close>) is a \<open>string option\<close>.  It is falsy when
  it is \<^verbatim>\<open>undefined\<close> or the empty string; \<^verbatim>\<open>a || b\<close> is \<open>a\<close> when \<open>a\<close> is truthy
  and \<open>b\<close> otherwise; a template literal prints \<^verbatim>\<open>undefined\<close> for an absent value.
\<close>

definition truthy :: "string option \<Rightarrow> bool" where
  "truthy a = (case a of None \<Rightarrow> False | Some s \<Rightarrow> s \<noteq> [])"

definition truthy_flag :: "bool option \<Rightarrow> bool" where
  "truthy_flag a = (case a of None \<Rightarrow> False | Some b \<Rightarrow> b)"

definition or_else :: "string option \<Rightarrow> string option \<Rightarrow> string option" where
  "or_else a b = (if truthy a then a else b)"

definition or_default :: "string option \<Rightarrow> string \<Rightarrow> string" where
  "or_default a d = (case a of None \<Rightarrow> d | Some s \<Rightarrow> if s = [] then d else s)"

definition to_string :: "string option \<Rightarrow> string" where
  "to_string a = (case a of None \<Rightarrow> ''undefined'' | Some s \<Rightarrow> s)"

section \<open>The provider and the browser\<close>

datatype AspectRatio = LANDSCAPE | PORTRAIT

datatype modality = AUDIO

text \<open>The argument of \<^verbatim>\<open>ai.models.generateVideos\<close>.\<close>

record video_request =
  vr_model :: string
  vr_prompt :: string
  vr_imageBytes :: string
  vr_mimeType :: string
  vr_numberOfVideos :: nat
  vr_resolution :: string
  vr_aspectRatio :: AspectRatio

text \<open>
  The long-running operation the provider returns; every field the service reads is
  optional, as in \<^verbatim>\<open>operation.response?.generatedVideos?.[0]?.video?.uri\<close>.
\<close>

record video_file =
  uri :: "string option"

record generated_video =
  video :: "video_file option"

record videos_response =
  generatedVideos :: "generated_video list option"

record operation_error =
  message :: "string option"

record operation =
  op_name :: "string option"
  op_done :: "bool option"
  op_error :: "operation_error option"
  op_response :: "videos_response option"

text \<open>The argument and the answer of \<^verbatim>\<open>ai.models.generateContent\<close>.\<close>

datatype part = TextPart string | InlineDataPart string string

record content_request =
  cr_model :: string
  cr_parts :: "part list"
  cr_systemInstruction :: "string option"
  cr_responseModalities :: "modality list"
  cr_voiceName :: "string option"

record inline_data =
  inline_data_data :: "string option"

record response_part =
  part_inlineData :: "inline_data option"

record response_content =
  content_parts :: "response_part list option"

record candidate =
  cand_content :: "response_content option"

record content_response =
  resp_text :: "string option"
  resp_candidates :: "candidate list option"

text \<open>
  What a run of a service function meets outside itself: the build-time
  \<^verbatim>\<open>process.env.API_KEY\<close>, the provider's answers (\<open>Inl\<close> when the call throws), and the
  two browser functions.  \<open>getVideosOperation w n\<close> is the provider's answer to the
  \<open>n\<close>-th status call of the run, counted from 0.
\<close>

record world =
  API_KEY :: "string option"
  generateContent :: "content_request \<Rightarrow> js_error + content_response"
  generateVideos :: "video_request \<Rightarrow> js_error + operation"
  getVideosOperation :: "nat \<Rightarrow> js_error + operation"
  atob :: "string \<Rightarrow> js_error + string"
  createObjectURL :: "blob \<Rightarrow> string"

text \<open>
  What a run does that its caller or the provider can observe, in order: a call of
  \<^verbatim>\<open>onProgress\<close>, a request to the provider with its argument, a timer wait in
  milliseconds.
\<close>

datatype event =
    Progress string
  | GenerateContentCall content_request
  | GenerateVideosCall video_request
  | Wait nat
  | GetVideosOperationCall operation

record ai_client =
  client_apiKey :: string

section \<open>The service functions\<close>

definition getAiClient :: "world \<Rightarrow> string option \<Rightarrow> js_error + ai_client" where
  "getAiClient w explicitKey =
     (let apiKey = or_else explicitKey (API_KEY w) in
      if \<not> truthy apiKey then
        Inl (Error ''API Key not found. Please select a project or enter a key in settings.'')
      else Inr \<lparr>client_apiKey = to_string apiKey\<rparr>)"

definition decodeAudio :: "world \<Rightarrow> string \<Rightarrow> js_error + u8 list" where
  "decodeAudio w base64String =
     bind_res (atob w base64String) (\<lambda>binaryString.
       Inr (map (\<lambda>c. word_of_int (of_char c)) binaryString))"

text \<open>
  An \<^verbatim>\<open>async\<close> function returns what its promise settles with, \<open>Inl\<close> for a rejection,
  together with the events of the run.  A call of the \<^verbatim>\<open>onProgress\<close> callback is the
  event \<open>Progress\<close> and the \<^verbatim>\<open>setTimeout\<close> promise is the event \<open>Wait\<close>; neither
  throws, and neither does the constructor of the client.
\<close>

definition enhancePrompt_systemInstruction :: string where
  "enhancePrompt_systemInstruction =
     ''You are an expert prompt engineer for video generation models. '' @
     ''Convert the user'' @ [CHR 0x27] @ ''s short input or keywords into a detailed, '' @
     ''visually rich prompt suitable for generating a video. '' @
     ''Focus on movement, lighting, camera angles, and atmosphere. '' @
     ''Keep the result concise (max 2-3 sentences). Output ONLY the enhanced prompt text.''"

definition enhancePrompt ::
  "world \<Rightarrow> string option \<Rightarrow> string \<Rightarrow> (js_error + string) \<times> event list" where
  "enhancePrompt w apiKey input =
     (case getAiClient w apiKey of
        Inl e \<Rightarrow> (Inl e, [])
      | Inr ai \<Rightarrow>
          (let request = \<lparr>cr_model = ''gemini-2.5-flash'',
                          cr_parts = [TextPart input],
                          cr_systemInstruction = Some enhancePrompt_systemInstruction,
                          cr_responseModalities = [],
                          cr_voiceName = None\<rparr>
           in case generateContent w request of
                Inl e \<Rightarrow> (Inl e, [GenerateContentCall request])
              | Inr response \<Rightarrow>
                  (Inr (or_default (resp_text response) input),
                   [GenerateContentCall request])))"

text \<open>
  The polling loop of \<^verbatim>\<open>generateVeoVideo\<close>.  \<open>n\<close> counts the status calls made so far,
  \<open>tr\<close> holds the events so far.  The loop has no bound: where the provider never
  answers with \<^verbatim>\<open>done\<close> the result is \<open>None\<close>.  It ends with the operation that has
  \<^verbatim>\<open>done\<close> set, or with what a status call threw.
\<close>

partial_function (option) pollingLoop ::
  "(nat \<Rightarrow> js_error + operation) \<Rightarrow> nat \<Rightarrow> operation \<Rightarrow> event list \<Rightarrow>
     ((js_error + operation) \<times> event list) option" where
  "pollingLoop getOp n operation tr =
     (if \<not> truthy_flag (op_done operation) then
        (case getOp n of
           Inl e \<Rightarrow>
             Some (Inl e,
                   tr @ [Wait 5000, Progress ''Still rendering...'',
                         GetVideosOperationCall operation])
         | Inr operation' \<Rightarrow>
             pollingLoop getOp (Suc n) operation'
               (tr @ [Wait 5000, Progress ''Still rendering...'',
                      GetVideosOperationCall operation]))
      else Some (Inr operation, tr))"

definition videoUri :: "operation \<Rightarrow> string option" where
  "videoUri operation =
     (case op_response operation of
        None \<Rightarrow> None
      | Some response \<Rightarrow>
          (case generatedVideos response of
             None \<Rightarrow> None
           | Some [] \<Rightarrow> None
           | Some (v # _) \<Rightarrow>
               (case video v of None \<Rightarrow> None | Some f \<Rightarrow> uri f)))"

definition veo_request :: "string \<Rightarrow> string \<Rightarrow> string \<Rightarrow> AspectRatio \<Rightarrow> video_request" where
  "veo_request prompt imageBase64 mimeType aspectRatio =
     \<lparr>vr_model = ''veo-3.1-fast-generate-preview'',
      vr_prompt = or_default (Some prompt) ''Animate this image'',
      vr_imageBytes = imageBase64,
      vr_mimeType = mimeType,
      vr_numberOfVideos = 1,
      vr_resolution = ''720p'',
      vr_aspectRatio = aspectRatio\<rparr>"

definition generateVeoVideo ::
  "world \<Rightarrow> string option \<Rightarrow> string \<Rightarrow> string \<Rightarrow> string \<Rightarrow> AspectRatio \<Rightarrow>
     ((js_error + string) \<times> event list) option" where
  "generateVeoVideo w apiKey prompt imageBase64 mimeType aspectRatio =
     (case getAiClient w apiKey of
        Inl e \<Rightarrow> Some (Inl e, [])
      | Inr ai \<Rightarrow>
          (let request = veo_request prompt imageBase64 mimeType aspectRatio;
               tr0 = [Progress ''Initializing video generation...'',
                      GenerateVideosCall request]
           in case generateVideos w request of
                Inl e \<Rightarrow> Some (Inl e, tr0)
              | Inr operation \<Rightarrow>
                  (case pollingLoop (getVideosOperation w) 0 operation
                          (tr0 @ [Progress ''Rendering video... This may take a moment.'']) of
                     None \<Rightarrow> None
                   | Some (Inl e, tr) \<Rightarrow> Some (Inl e, tr)
                   | Some (Inr operation, tr) \<Rightarrow>
                       (case op_error operation of
                          Some err \<Rightarrow>
                            Some (Inl (Error (or_default (message err)
                                                ''Video generation failed'')), tr)
                        | None \<Rightarrow>
                            (let videoUri = videoUri operation in
                             if \<not> truthy videoUri then
                               Some (Inl (Error ''No video URI returned from the API.''), tr)
                             else
                               (let effectiveKey = or_else apiKey (API_KEY w) in
                                Some (Inr (to_string videoUri @ ''&key='' @
                                           to_string effectiveKey), tr)))))))"

definition inlineAudioData :: "content_response \<Rightarrow> string option" where
  "inlineAudioData response =
     (case resp_candidates response of
        None \<Rightarrow> None
      | Some [] \<Rightarrow> None
      | Some (c # _) \<Rightarrow>
          (case cand_content c of
             None \<Rightarrow> None
           | Some content \<Rightarrow>
               (case content_parts content of
                  None \<Rightarrow> None
                | Some [] \<Rightarrow> None
                | Some (p # _) \<Rightarrow>
                    (case part_inlineData p of
                       None \<Rightarrow> None
                     | Some d \<Rightarrow> inline_data_data d))))"

text \<open>
  The tail both speech functions share after the provider's answer: the missing-audio
  check, \<^verbatim>\<open>decodeAudio\<close>, \<^verbatim>\<open>pcmToWav\<close> at 24000 and \<^verbatim>\<open>URL.createObjectURL\<close>.
\<close>

definition audioUrl :: "world \<Rightarrow> content_response \<Rightarrow> js_error + string" where
  "audioUrl w response =
     (let base64Audio = inlineAudioData response in
      if \<not> truthy base64Audio then Inl (Error ''No audio data generated.'')
      else
        bind_res (decodeAudio w (to_string base64Audio)) (\<lambda>audioBytes.
        bind_res (pcmToWav audioBytes 24000) (\<lambda>wavBlob.
          Inr (createObjectURL w wavBlob))))"

definition generateTextToSpeech ::
  "world \<Rightarrow> string option \<Rightarrow> string \<Rightarrow> string option \<Rightarrow> (js_error + string) \<times> event list" where
  "generateTextToSpeech w apiKey text' voiceName =
     (case getAiClient w apiKey of
        Inl e \<Rightarrow> (Inl e, [])
      | Inr ai \<Rightarrow>
          (let request = \<lparr>cr_model = ''gemini-2.5-flash-preview-tts'',
                          cr_parts = [TextPart text'],
                          cr_systemInstruction = None,
                          cr_responseModalities = [AUDIO],
                          cr_voiceName =
                            Some (case voiceName of None \<Rightarrow> ''Kore'' | Some v \<Rightarrow> v)\<rparr>
           in case generateContent w request of
                Inl e \<Rightarrow> (Inl e, [GenerateContentCall request])
              | Inr response \<Rightarrow> (audioUrl w response, [GenerateContentCall request])))"

definition generateClonedSpeech ::
  "world \<Rightarrow> string option \<Rightarrow> string \<Rightarrow> string \<Rightarrow> string \<Rightarrow> (js_error + string) \<times> event list" where
  "generateClonedSpeech w apiKey text' audioBase64 mimeType =
     (case getAiClient w apiKey of
        Inl e \<Rightarrow> (Inl e, [])
      | Inr ai \<Rightarrow>
          (let request = \<lparr>cr_model = ''gemini-2.5-flash-native-audio-preview-09-2025'',
                          cr_parts =
                            [InlineDataPart mimeType audioBase64,
                             TextPart (''Please read the following text. Mimic the voice, tone, '' @
                                       ''and speaking style of the speaker in the provided audio '' @
                                       ''clip as closely as possible. Text to read: '' @
                                       [CHR 0x22] @ text' @ [CHR 0x22])],
                          cr_systemInstruction = None,
                          cr_responseModalities = [AUDIO],
                          cr_voiceName = None\<rparr>
           in case generateContent w request of
                Inl e \<Rightarrow> (Inl e, [GenerateContentCall request])
              | Inr response \<Rightarrow> (audioUrl w response, [GenerateContentCall request])))"

section \<open>Vocabulary for runs of the video job\<close>

text \<open>
  The terms in which the properties of \<open>generateVeoVideo\<close> are stated.  An operation is
  done when its \<^verbatim>\<open>done\<close> field is truthy.  \<open>pending getOp k\<close>: the first \<open>k\<close> status
  calls each return an operation that is not done (none throws).  \<open>passed getOp op k\<close>
  is the operation handed to the \<open>k\<close>-th status call: the submitted one first, then the
  previous answer.  One round of the loop is the wait, the progress message and the
  status call; \<open>rounds getOp op k\<close> are the events of the first \<open>k\<close> rounds.
\<close>

definition is_done :: "operation \<Rightarrow> bool" where
  "is_done operation = truthy_flag (op_done operation)"

definition has_key :: "world \<Rightarrow> string option \<Rightarrow> bool" where
  "has_key w apiKey = truthy (or_else apiKey (API_KEY w))"

definition poll_round :: "operation \<Rightarrow> event list" where
  "poll_round operation =
     [Wait 5000, Progress ''Still rendering...'', GetVideosOperationCall operation]"

fun pending :: "(nat \<Rightarrow> js_error + operation) \<Rightarrow> nat \<Rightarrow> bool" where
  "pending getOp 0 = True"
| "pending getOp (Suc k) =
     (pending getOp k \<and>
      (case getOp k of Inl e \<Rightarrow> False | Inr operation \<Rightarrow> \<not> is_done operation))"

fun passed :: "(nat \<Rightarrow> js_error + operation) \<Rightarrow> operation \<Rightarrow> nat \<Rightarrow> operation" where
  "passed getOp operation 0 = operation"
| "passed getOp operation (Suc k) =
     (case getOp k of Inl e \<Rightarrow> operation | Inr operation' \<Rightarrow> operation')"

fun rounds :: "(nat \<Rightarrow> js_error + operation) \<Rightarrow> operation \<Rightarrow> nat \<Rightarrow> event list" where
  "rounds getOp operation 0 = []"
| "rounds getOp operation (Suc k) =
     rounds getOp operation k @ poll_round (passed getOp operation k)"

definition submitted_events :: "video_request \<Rightarrow> event list" where
  "submitted_events request =
     [Progress ''Initializing video generation...'', GenerateVideosCall request,
      Progress ''Rendering video... This may take a moment.'']"

fun is_poll :: "event \<Rightarrow> bool" where
  "is_poll (GetVideosOperationCall operation) = True"
| "is_poll e = False"


fun is_call :: "event \<Rightarrow> bool" where
  "is_call (Progress m) = False"
| "is_call (Wait ms) = False"
| "is_call e = True"

fun progress_message :: "event \<Rightarrow> string option" where
  "progress_message (Progress m) = Some m"
| "progress_message e = None"

definition poll_calls :: "event list \<Rightarrow> nat" where
  "poll_calls tr = length (filter is_poll tr)"


text \<open>The progress messages a run emits after its last request to the provider.\<close>

definition progress_after_last_call :: "event list \<Rightarrow> string list" where
  "progress_after_last_call tr =
     List.map_filter progress_message (rev (takeWhile (\<lambda>e. \<not> is_call e) (rev tr)))"


definition PollingFailed :: "world \<Rightarrow> video_request \<Rightarrow> nat \<Rightarrow> js_error \<Rightarrow> bool" where
  "PollingFailed w request k e =
     (case generateVideos w request of
        Inl e' \<Rightarrow> False
      | Inr operation \<Rightarrow>
          \<not> is_done operation \<and> pending (getVideosOperation w) k \<and>
          getVideosOperation w k = Inl e)"

definition completed :: "world \<Rightarrow> video_request \<Rightarrow> nat \<Rightarrow> operation \<Rightarrow> bool" where
  "completed w request n final =
     (case generateVideos w request of
        Inl e \<Rightarrow> False
      | Inr operation \<Rightarrow>
          (case n of
             0 \<Rightarrow> is_done operation \<and> final = operation
           | Suc k \<Rightarrow>
               \<not> is_done operation \<and> pending (getVideosOperation w) k \<and>
               getVideosOperation w k = Inr final \<and> is_done final))"



text \<open>
  Worlds for concrete runs: the provider answers the submission with \<open>submitted\<close> and
  the status calls with the listed answers in order.
\<close>

definition scripted :: "(js_error + operation) list \<Rightarrow> nat \<Rightarrow> js_error + operation" where
  "scripted answers n =
     (if n < length answers then answers ! n else Inl (Error ''no scripted answer''))"

definition scripted_world ::
  "string option \<Rightarrow> js_error + operation \<Rightarrow> (js_error + operation) list \<Rightarrow> world" where
  "scripted_world envKey submitted answers =
     \<lparr>API_KEY = envKey,
      generateContent = (\<lambda>request. Inl (Error ''no content scripted'')),
      generateVideos = (\<lambda>request. submitted),
      getVideosOperation = scripted answers,
      atob = (\<lambda>s. Inr s),
      createObjectURL = (\<lambda>b. ''blob:audio'')\<rparr>"

definition running :: operation where
  "running = \<lparr>op_name = Some ''operations/1'', op_done = Some False, op_error = None,
              op_response = None\<rparr>"

definition finished :: "string \<Rightarrow> operation" where
  "finished u =
     \<lparr>op_name = Some ''operations/1'', op_done = Some True, op_error = None,
      op_response = Some \<lparr>generatedVideos = Some [\<lparr>video = Some \<lparr>uri = Some u\<rparr>\<rparr>]\<rparr>\<rparr>"

definition failed :: "string option \<Rightarrow> operation" where
  "failed m =
     \<lparr>op_name = Some ''operations/1'', op_done = Some True,
      op_error = Some \<lparr>message = m\<rparr>, op_response = None\<rparr>"

definition running_with_error :: "string \<Rightarrow> operation" where
  "running_with_error m =
     \<lparr>op_name = Some ''operations/1'', op_done = Some False,
      op_error = Some \<lparr>message = Some m\<rparr>, op_response = None\<rparr>"

text \<open>
  A provider whose first status answer carries an error while the job is not done, and
  whose second answer is the finished job.
\<close>

definition error_while_running_world :: world where
  "error_while_running_world =
     scripted_world (Some ''K'') (Inr running)
       [Inr (running_with_error ''quota''),
        Inr (finished ''https://video.example/v1?alt=media'')]"

text \<open>A provider that answers not done twice and then done with a result.\<close>

definition three_polls_world :: world where
  "three_polls_world =
     scripted_world (Some ''SECRET'') (Inr running)
       [Inr running, Inr running, Inr (finished ''https://video.example/v1?alt=media'')]"

text \<open>A provider that finishes the job at the first status call.\<close>

definition one_poll_world :: world where
  "one_poll_world =
     scripted_world (Some ''K'') (Inr running)
       [Inr (finished ''https://video.example/v1?alt=media'')]"



text \<open>
  The events of a run that has not returned yet.  \<open>pollingLoop_events\<close> is the loop of
  \<^verbatim>\<open>generateVeoVideo\<close> read for what it emits: the events of its first \<open>fuel\<close> rounds,
  or of all its rounds when it ends earlier.  \<open>generateVeoVideo_events\<close> is the function
  body before the loop followed by these; it is defined for a run that polls for ever
  too, where \<open>generateVeoVideo\<close> is \<open>None\<close>.
\<close>

fun pollingLoop_events ::
  "(nat \<Rightarrow> js_error + operation) \<Rightarrow> nat \<Rightarrow> operation \<Rightarrow> nat \<Rightarrow> event list" where
  "pollingLoop_events getOp n operation 0 = []"
| "pollingLoop_events getOp n operation (Suc fuel) =
     (if \<not> truthy_flag (op_done operation) then
        [Wait 5000, Progress ''Still rendering...'', GetVideosOperationCall operation] @
        (case getOp n of
           Inl e \<Rightarrow> []
         | Inr operation' \<Rightarrow> pollingLoop_events getOp (Suc n) operation' fuel)
      else [])"

definition generateVeoVideo_events ::
  "world \<Rightarrow> string option \<Rightarrow> string \<Rightarrow> string \<Rightarrow> string \<Rightarrow> AspectRatio \<Rightarrow> nat \<Rightarrow>
     event list" where
  "generateVeoVideo_events w apiKey prompt imageBase64 mimeType aspectRatio fuel =
     (case getAiClient w apiKey of
        Inl e \<Rightarrow> []
      | Inr ai \<Rightarrow>
          (let request = veo_request prompt imageBase64 mimeType aspectRatio;
               tr0 = [Progress ''Initializing video generation...'',
                      GenerateVideosCall request]
           in case generateVideos w request of
                Inl e \<Rightarrow> tr0
              | Inr operation \<Rightarrow>
                  tr0 @ [Progress ''Rendering video... This may take a moment.''] @
                  pollingLoop_events (getVideosOperation w) 0 operation fuel))"

text \<open>A provider that answers every status call with a job that is not done.\<close>

definition never_done_world :: world where
  "never_done_world =
     \<lparr>API_KEY = Some ''K'',
      generateContent = (\<lambda>request. Inl (Error ''no content scripted'')),
      generateVideos = (\<lambda>request. Inr running),
      getVideosOperation = (\<lambda>n. Inr running),
      atob = (\<lambda>s. Inr s),
      createObjectURL = (\<lambda>b. ''blob:audio'')\<rparr>"

section \<open>Properties of the audio container encoder\<close>

subsection \<open>The setters inside the buffer\<close>

lemma bind_res_Inr: "bind_res (Inr x) f = f x"
  by (simp add: bind_res_def)

lemma bind_res_Inl: "bind_res (Inl e) f = Inl e"
  by (simp add: bind_res_def)

lemma setUint8_ok:
  "off < length view \<Longrightarrow> setUint8 view off v = Inr (view[off := word_of_int v])"
  by (simp add: setUint8_def)

lemma setUint16_ok:
  "off + 1 < length view \<Longrightarrow>
   setUint16 view off v True =
     Inr (view[off := word_of_int v, off + 1 := word_of_int (v div 256)])"
  by (simp add: setUint16_def)

lemma setUint32_ok:
  "off + 3 < length view \<Longrightarrow>
   setUint32 view off v True =
     Inr (view[off := word_of_int v, off + 1 := word_of_int (v div 256),
               off + 2 := word_of_int (v div 65536),
               off + 3 := word_of_int (v div 16777216)])"
  by (simp add: setUint32_def)

lemma header44:
  "replicate 44 (0::u8) =
     [0,0,0,0,0,0,0,0,0,0,0,0,0,0,0,0,0,0,0,0,0,0,
      0,0,0,0,0,0,0,0,0,0,0,0,0,0,0,0,0,0,0,0,0,0]"
  by (simp add: numeral_eq_Suc)

text \<open>Every write lands inside the 44 bytes, so the encoder returns the header followed by the payload.\<close>

lemma pcmToWav_eq:
  "pcmToWav pcm r =
     Inr \<lparr>blob_bytes = wav_header (int (length pcm)) r @ pcm, blob_type = ''audio/wav''\<rparr>"
  unfolding pcmToWav_def Let_def header44
  by (simp add: setUint8_ok setUint16_ok setUint32_ok bind_res_Inr wav_header_def
      le32_def le16_def)

lemma length_wav_header: "length (wav_header d r) = 44"
  by (simp add: wav_header_def le32_def le16_def)

subsection \<open>Little-endian fields\<close>

lemma mod32_step1: "(v::int) mod 4294967296 = 256 * (v div 256 mod 16777216) + v mod 256"
  using zmod_zmult2_eq [of 16777216 v 256] by simp

lemma mod32_step2:
  "(v::int) div 256 mod 16777216 = 256 * (v div 65536 mod 65536) + v div 256 mod 256"
  using zmod_zmult2_eq [of 65536 "v div 256" 256] zdiv_zmult2_eq [of 256 v 256] by simp

lemma mod32_step3:
  "(v::int) div 65536 mod 65536 = 256 * (v div 16777216 mod 256) + v div 65536 mod 256"
  using zmod_zmult2_eq [of 256 "v div 65536" 256] zdiv_zmult2_eq [of 256 v 65536] by simp

lemma le32_split:
  "(v::int) mod 4294967296 =
     v mod 256 + 256 * (v div 256 mod 256) + 65536 * (v div 65536 mod 256)
       + 16777216 * (v div 16777216 mod 256)"
  unfolding mod32_step1 mod32_step2 mod32_step3 by (simp only: distrib_left)

lemma le16_split: "(v::int) mod 65536 = v mod 256 + 256 * (v div 256 mod 256)"
  using zmod_zmult2_eq [of 256 v 256] by simp

lemma uint_byte: "uint (word_of_int v :: u8) = v mod 256"
  by (simp add: uint_word_of_int)

lemma getUint32_le32:
  assumes "[bs ! off, bs ! (off + 1), bs ! (off + 2), bs ! (off + 3)] = le32 v"
  shows "getUint32 bs off = v mod 4294967296"
proof -
  from assms have "bs ! off = word_of_int v" "bs ! (off + 1) = word_of_int (v div 256)"
    "bs ! (off + 2) = word_of_int (v div 65536)"
    "bs ! (off + 3) = word_of_int (v div 16777216)"
    by (simp_all add: le32_def)
  then show ?thesis
    unfolding getUint32_def le32_split by (simp only: uint_byte)
qed

lemma getUint16_le16:
  assumes "[bs ! off, bs ! (off + 1)] = le16 v"
  shows "getUint16 bs off = v mod 65536"
proof -
  from assms have "bs ! off = word_of_int v" "bs ! (off + 1) = word_of_int (v div 256)"
    by (simp_all add: le16_def)
  then show ?thesis
    unfolding getUint16_def le16_split by (simp only: uint_byte)
qed

lemma hdr_riff_size: "getUint32 (wav_header d r @ pcm) 4 = (36 + d) mod 4294967296"
  by (rule getUint32_le32) (simp add: wav_header_def le32_def le16_def)

lemma hdr_fmt_size: "getUint32 (wav_header d r @ pcm) 16 = 16"
  using getUint32_le32 [of "wav_header d r @ pcm" 16 16]
  by (simp add: wav_header_def le32_def le16_def)

lemma hdr_format_tag: "getUint16 (wav_header d r @ pcm) 20 = 1"
  using getUint16_le16 [of "wav_header d r @ pcm" 20 1]
  by (simp add: wav_header_def le32_def le16_def)

lemma hdr_channels: "getUint16 (wav_header d r @ pcm) 22 = 1"
  using getUint16_le16 [of "wav_header d r @ pcm" 22 1]
  by (simp add: wav_header_def le32_def le16_def)

lemma hdr_sample_rate: "getUint32 (wav_header d r @ pcm) 24 = r mod 4294967296"
  by (rule getUint32_le32) (simp add: wav_header_def le32_def le16_def)

lemma hdr_byte_rate: "getUint32 (wav_header d r @ pcm) 28 = (r * 2) mod 4294967296"
  by (rule getUint32_le32) (simp add: wav_header_def le32_def le16_def)

lemma hdr_block_align: "getUint16 (wav_header d r @ pcm) 32 = 2"
  using getUint16_le16 [of "wav_header d r @ pcm" 32 2]
  by (simp add: wav_header_def le32_def le16_def)

lemma hdr_bits: "getUint16 (wav_header d r @ pcm) 34 = 16"
  using getUint16_le16 [of "wav_header d r @ pcm" 34 16]
  by (simp add: wav_header_def le32_def le16_def)

lemma hdr_data_size: "getUint32 (wav_header d r @ pcm) 40 = d mod 4294967296"
  by (rule getUint32_le32) (simp add: wav_header_def le32_def le16_def)

subsection \<open>The claims about \<open>pcmToWav\<close>\<close>

text \<open>
  C4, as amended.  For every byte array \<open>pcm\<close> and every integer sample rate \<open>r\<close> the
  encoder returns a buffer of \<open>44 + length pcm\<close> bytes whose little-endian header
  fields are: sub-chunk size 16 at bytes 16-19, format tag 1 at 20-21, channel count 1
  at 22-23, block align 2 at 32-33, bits per sample 16 at 34-35, and, each reduced modulo
  \<open>2 ^ 32\<close> by the 32-bit store, \<open>36 + length pcm\<close> at bytes 4-7, \<open>r * 2\<close> at bytes
  28-31 and \<open>length pcm\<close> at bytes 40-43.
\<close>

theorem pcmToWav_header_fields:
  "\<exists>b. pcmToWav pcm r = Inr b \<and>
       length (blob_bytes b) = 44 + length pcm \<and>
       getUint32 (blob_bytes b) 4 = (36 + int (length pcm)) mod 4294967296 \<and>
       getUint32 (blob_bytes b) 16 = 16 \<and>
       getUint16 (blob_bytes b) 20 = 1 \<and>
       getUint16 (blob_bytes b) 22 = 1 \<and>
       getUint32 (blob_bytes b) 28 = (r * 2) mod 4294967296 \<and>
       getUint16 (blob_bytes b) 32 = 2 \<and>
       getUint16 (blob_bytes b) 34 = 16 \<and>
       getUint32 (blob_bytes b) 40 = int (length pcm) mod 4294967296"
  by (simp add: pcmToWav_eq length_wav_header hdr_riff_size hdr_fmt_size hdr_format_tag
      hdr_channels hdr_byte_rate hdr_block_align hdr_bits hdr_data_size)

text \<open>
  The example of C4: \<^verbatim>\<open>pcmToWav([0x00, 0x01], 24000)\<close> is 46 bytes long, its bytes 4-7
  hold 38, bytes 28-31 hold 48000 and bytes 40-43 hold 2.
\<close>

theorem pcmToWav_header_fields_witness:
  "\<exists>b. pcmToWav [0, 1] 24000 = Inr b \<and> length (blob_bytes b) = 46 \<and>
       getUint32 (blob_bytes b) 4 = 38 \<and> getUint32 (blob_bytes b) 28 = 48000 \<and>
       getUint32 (blob_bytes b) 40 = 2"
  using pcmToWav_header_fields [of "[0, 1]" 24000] by auto

text \<open>
  C4 as stated fails where a value does not fit its 32-bit field: at the sample rate
  \<open>2 ^ 31\<close> the byte-rate field (bytes 28-31) holds 0, not \<open>2 ^ 31 * 2\<close>.
\<close>

theorem pcmToWav_byte_rate_counterexample:
  "pcmToWav [0, 1] 2147483648 =
     Inr \<lparr>blob_bytes =
            [82, 73, 70, 70, 38, 0, 0, 0, 87, 65, 86, 69, 102, 109, 116, 32,
             16, 0, 0, 0, 1, 0, 1, 0, 0, 0, 0, 128, 0, 0, 0, 0, 2, 0, 16, 0,
             100, 97, 116, 97, 2, 0, 0, 0, 0, 1],
          blob_type = ''audio/wav''\<rparr> \<and>
   getUint32 [82, 73, 70, 70, 38, 0, 0, 0, 87, 65, 86, 69, 102, 109, 116, 32,
             16, 0, 0, 0, 1, 0, 1, 0, 0, 0, 0, 128, 0, 0, 0, 0, 2, 0, 16, 0,
             100, 97, 116, 97, 2, 0, 0, 0, 0, 1] 28 = 0 \<and>
   (0 :: int) \<noteq> 2147483648 * 2"
  by (simp add: pcmToWav_eq wav_header_def le32_def le16_def getUint32_def)

text \<open>
  C5.  The output is the 44-byte header followed by the input bytes unchanged: its
  length is \<open>44 + length pcm\<close>, its first 44 bytes are the header and the bytes from
  offset 44 on are \<open>pcm\<close>.
\<close>

theorem pcmToWav_header_then_payload:
  "\<exists>b. pcmToWav pcm r = Inr b \<and>
       length (blob_bytes b) = 44 + length pcm \<and>
       take 44 (blob_bytes b) = wav_header (int (length pcm)) r \<and>
       drop 44 (blob_bytes b) = pcm"
  by (simp add: pcmToWav_eq length_wav_header)

text \<open>
  C6.  Two runs on the same bytes and the same sample rate return the same container:
  the encoder reads nothing but its two arguments.
\<close>

theorem pcmToWav_deterministic:
  "pcm1 = pcm2 \<Longrightarrow> r1 = r2 \<Longrightarrow> pcmToWav pcm1 r1 = pcmToWav pcm2 r2"
  by (simp add: pcmToWav_eq)

theorem pcmToWav_deterministic_witness:
  "pcmToWav [0, 1] 24000 = pcmToWav [0, 1] 24000"
  by (rule pcmToWav_deterministic [OF refl refl])

text \<open>
  C7.  The encoder has no error path: for every byte array, the empty one included, and
  every sample rate it returns a container; no setter is ever outside the buffer.
\<close>

theorem pcmToWav_total: "\<exists>b. pcmToWav pcm r = Inr b"
  by (simp add: pcmToWav_eq)

section \<open>Properties of the video job\<close>

subsection \<open>The polling loop\<close>

lemma pollingLoop_done:
  "is_done operation \<Longrightarrow> pollingLoop getOp n operation tr = Some (Inr operation, tr)"
  by (subst pollingLoop.simps) (simp add: is_done_def)


lemma pollingLoop_step:
  "\<not> is_done operation \<Longrightarrow> getOp n = Inr operation' \<Longrightarrow>
   pollingLoop getOp n operation tr =
     pollingLoop getOp (Suc n) operation' (tr @ poll_round operation)"
  by (subst pollingLoop.simps) (simp add: is_done_def poll_round_def)

lemma passed_not_done:
  "pending getOp k \<Longrightarrow> \<not> is_done operation \<Longrightarrow> \<not> is_done (passed getOp operation k)"
  by (cases k) (auto split: sum.splits)

text \<open>While the answers are pending the loop goes round: \<open>k\<close> answers, \<open>k\<close> rounds.\<close>

lemma pollingLoop_pending:
  "pending getOp k \<Longrightarrow> \<not> is_done operation \<Longrightarrow>
   pollingLoop getOp 0 operation tr =
     pollingLoop getOp k (passed getOp operation k) (tr @ rounds getOp operation k)"
proof (induction k)
  case 0
  then show ?case by simp
next
  case (Suc k)
  from Suc.prems obtain operation' where p: "pending getOp k"
    and g: "getOp k = Inr operation'" and nd: "\<not> is_done operation'"
    by (auto split: sum.splits)
  have "\<not> is_done (passed getOp operation k)"
    using p Suc.prems(2) by (rule passed_not_done)
  then have "pollingLoop getOp k (passed getOp operation k) (tr @ rounds getOp operation k) =
      pollingLoop getOp (Suc k) operation'
        ((tr @ rounds getOp operation k) @ poll_round (passed getOp operation k))"
    using g by (rule pollingLoop_step)
  with Suc.IH [OF p Suc.prems(2)] g show ?case by simp
qed

lemma pollingLoop_ends_done:
  assumes "pending getOp k" "\<not> is_done operation" "getOp k = Inr final" "is_done final"
  shows "pollingLoop getOp 0 operation tr =
           Some (Inr final, tr @ rounds getOp operation (Suc k))"
proof -
  have nd: "\<not> is_done (passed getOp operation k)"
    using assms(1,2) by (rule passed_not_done)
  show ?thesis
    using pollingLoop_pending [OF assms(1,2), of tr]
      pollingLoop_step [of "passed getOp operation k" getOp k final, OF nd assms(3)]
      pollingLoop_done [OF assms(4)] by simp
qed


text \<open>Conversely, a loop that returns has met a first answer that is thrown or done.\<close>

lemma pending_shift:
  "pending (\<lambda>j. getOp (n + j)) (Suc k) =
     ((case getOp n of Inl e \<Rightarrow> False | Inr operation \<Rightarrow> \<not> is_done operation) \<and>
      pending (\<lambda>j. getOp (Suc n + j)) k)"
  by (induction k) auto

lemmas pollingLoop_induct = pollingLoop.raw_induct [rotated 1, consumes 1, case_names body]

lemma pollingLoop_returns_from:
  "pollingLoop getOp n operation tr = Some y \<Longrightarrow>
   (if is_done operation then fst y = Inr operation
    else \<exists>k. pending (\<lambda>j. getOp (n + j)) k \<and>
       (case getOp (n + k) of Inl e \<Rightarrow> fst y = Inl e
        | Inr final \<Rightarrow> is_done final \<and> fst y = Inr final))"
proof (induction rule: pollingLoop_induct)
  case (body pollingLoop getOp n operation tr y)
  show ?case
  proof (cases "is_done operation")
    case True
    with body.hyps show ?thesis by (auto simp: is_done_def)
  next
    case nd: False
    show ?thesis
    proof (cases "getOp n")
      case (Inl e)
      with body.hyps nd have "fst y = Inl e" by (auto simp: is_done_def)
      with Inl have "pending (\<lambda>j. getOp (n + j)) 0 \<and>
         (case getOp (n + 0) of Inl e \<Rightarrow> fst y = Inl e
          | Inr final \<Rightarrow> is_done final \<and> fst y = Inr final)" by simp
      with nd show ?thesis by (simp only: if_False) (rule exI)
    next
      case (Inr operation')
      with body.hyps nd have rec: "pollingLoop getOp (Suc n) operation'
          (tr @ [Wait 5000, Progress ''Still rendering...'', GetVideosOperationCall operation])
            = Some y"
        by (simp add: is_done_def)
      note ih = body.IH [OF rec]
      show ?thesis
      proof (cases "is_done operation'")
        case True
        with ih have "fst y = Inr operation'" by simp
        with Inr True have "pending (\<lambda>j. getOp (n + j)) 0 \<and>
           (case getOp (n + 0) of Inl e \<Rightarrow> fst y = Inl e
            | Inr final \<Rightarrow> is_done final \<and> fst y = Inr final)" by simp
        with nd show ?thesis by (simp only: if_False) (rule exI)
      next
        case False
        with ih obtain k where
          k: "pending (\<lambda>j. getOp (Suc n + j)) k"
          "(case getOp (Suc n + k) of Inl e \<Rightarrow> fst y = Inl e
            | Inr final \<Rightarrow> is_done final \<and> fst y = Inr final)" by auto
        have "pending (\<lambda>j. getOp (n + j)) (Suc k)"
          unfolding pending_shift using Inr False k(1) by simp
        with k(2) have "pending (\<lambda>j. getOp (n + j)) (Suc k) \<and>
           (case getOp (n + Suc k) of Inl e \<Rightarrow> fst y = Inl e
            | Inr final \<Rightarrow> is_done final \<and> fst y = Inr final)" by simp
        with nd show ?thesis by (simp only: if_False) (rule exI)
      qed
    qed
  qed
qed

lemma pollingLoop_returns:
  assumes "pollingLoop getOp 0 operation tr = Some (r, tr')" "\<not> is_done operation"
  shows "\<exists>k. pending getOp k \<and>
       (case getOp k of Inl e \<Rightarrow> r = Inl e
        | Inr final \<Rightarrow> is_done final \<and> r = Inr final)"
  using pollingLoop_returns_from [OF assms(1)] assms(2) by (simp cong: sum.case_cong)

subsection \<open>Runs of \<open>generateVeoVideo\<close>\<close>

lemma getAiClient_no_key:
  "\<not> has_key w apiKey \<Longrightarrow>
   getAiClient w apiKey =
     Inl (Error ''API Key not found. Please select a project or enter a key in settings.'')"
  by (simp add: getAiClient_def has_key_def)

lemma getAiClient_key:
  "has_key w apiKey \<Longrightarrow>
   getAiClient w apiKey = Inr \<lparr>client_apiKey = to_string (or_else apiKey (API_KEY w))\<rparr>"
  by (simp add: getAiClient_def has_key_def)

lemma run_no_key:
  "\<not> has_key w apiKey \<Longrightarrow>
   generateVeoVideo w apiKey prompt img mime ar =
     Some (Inl (Error ''API Key not found. Please select a project or enter a key in settings.''),
           [])"
  by (simp add: generateVeoVideo_def getAiClient_no_key)

lemma run_submission_failed:
  "has_key w apiKey \<Longrightarrow> generateVideos w (veo_request prompt img mime ar) = Inl e \<Longrightarrow>
   generateVeoVideo w apiKey prompt img mime ar =
     Some (Inl e, [Progress ''Initializing video generation...'',
                   GenerateVideosCall (veo_request prompt img mime ar)])"
  by (simp add: generateVeoVideo_def getAiClient_key)

text \<open>After a submission that returns, the run is the loop followed by the two checks.\<close>

lemma run_submitted:
  "has_key w apiKey \<Longrightarrow> generateVideos w (veo_request prompt img mime ar) = Inr operation \<Longrightarrow>
   generateVeoVideo w apiKey prompt img mime ar =
     (case pollingLoop (getVideosOperation w) 0 operation
             (submitted_events (veo_request prompt img mime ar)) of
        None \<Rightarrow> None
      | Some (Inl e, tr) \<Rightarrow> Some (Inl e, tr)
      | Some (Inr final, tr) \<Rightarrow>
          (case op_error final of
             Some err \<Rightarrow>
               Some (Inl (Error (or_default (message err) ''Video generation failed'')), tr)
           | None \<Rightarrow>
               if \<not> truthy (videoUri final) then
                 Some (Inl (Error ''No video URI returned from the API.''), tr)
               else
                 Some (Inr (to_string (videoUri final) @ ''&key='' @
                            to_string (or_else apiKey (API_KEY w))), tr)))"
  by (auto simp: generateVeoVideo_def getAiClient_key submitted_events_def Let_def
      split: option.splits sum.splits prod.splits)

lemma loop_completed:
  assumes "completed w request n final" "generateVideos w request = Inr operation"
  shows "pollingLoop (getVideosOperation w) 0 operation tr =
           Some (Inr final, tr @ rounds (getVideosOperation w) operation n)"
proof (cases n)
  case 0
  with assms show ?thesis by (simp add: completed_def pollingLoop_done)
next
  case (Suc k)
  with assms have "pending (getVideosOperation w) k" "\<not> is_done operation"
    "getVideosOperation w k = Inr final" "is_done final"
    by (simp_all add: completed_def)
  then show ?thesis unfolding Suc by (rule pollingLoop_ends_done)
qed


lemma loop_returns_cases:
  assumes "pollingLoop (getVideosOperation w) 0 operation tr = Some (r, tr')"
    and "generateVideos w request = Inr operation"
  shows "(\<exists>n final. completed w request n final \<and> r = Inr final) \<or>
         (\<exists>k e. PollingFailed w request k e \<and> r = Inl e)"
proof (cases "is_done operation")
  case True
  from assms(2) True have "completed w request 0 operation"
    by (simp add: completed_def)
  moreover from assms(1) True have "r = Inr operation"
    by (simp add: pollingLoop_done)
  ultimately show ?thesis by blast
next
  case False
  from pollingLoop_returns [OF assms(1) False] obtain k where
    k: "pending (getVideosOperation w) k"
    "case getVideosOperation w k of Inl e \<Rightarrow> r = Inl e
     | Inr final \<Rightarrow> is_done final \<and> r = Inr final" by blast
  show ?thesis
  proof (cases "getVideosOperation w k")
    case (Inl e)
    with k False assms(2) have "PollingFailed w request k e \<and> r = Inl e"
      by (simp add: PollingFailed_def)
    then show ?thesis by blast
  next
    case (Inr final)
    with k False assms(2) have "completed w request (Suc k) final \<and> r = Inr final"
      by (simp add: completed_def)
    then show ?thesis by blast
  qed
qed

lemma poll_calls_rounds: "poll_calls (tr @ rounds getOp operation n) = poll_calls tr + n"
  by (induction n) (simp_all add: poll_calls_def poll_round_def)


lemma poll_calls_submitted: "poll_calls (submitted_events request) = 0"
  by (simp add: poll_calls_def submitted_events_def)


lemma progress_rounds:
  "set (List.map_filter progress_message (rounds getOp operation n)) \<subseteq> {''Still rendering...''}"
  by (induction n) (auto simp: poll_round_def List.map_filter_def)

lemma progress_after_rounds:
  "progress_after_last_call (tr @ rounds getOp operation (Suc n)) = []"
  by (simp add: progress_after_last_call_def poll_round_def List.map_filter_def)

text \<open>The scripted operations and worlds.\<close>

lemma running_simps: "\<not> is_done running" "op_error running = None"
  by (simp_all add: running_def is_done_def truthy_flag_def)

lemma finished_simps:
  "is_done (finished u)" "op_error (finished u) = None" "videoUri (finished u) = Some u"
  by (simp_all add: finished_def is_done_def truthy_flag_def videoUri_def)

lemma failed_simps: "is_done (failed m)" "op_error (failed m) = Some \<lparr>message = m\<rparr>"
  by (simp_all add: failed_def is_done_def truthy_flag_def)

lemma running_with_error_simps:
  "\<not> is_done (running_with_error m)"
  "op_error (running_with_error m) = Some \<lparr>message = Some m\<rparr>"
  by (simp_all add: running_with_error_def is_done_def truthy_flag_def)

lemma scripted_world_simps:
  "API_KEY (scripted_world envKey submitted answers) = envKey"
  "generateVideos (scripted_world envKey submitted answers) request = submitted"
  "getVideosOperation (scripted_world envKey submitted answers) = scripted answers"
  by (simp_all add: scripted_world_def)

lemma scripted_simps:
  "scripted (x # xs) 0 = x"
  "scripted (x # xs) (Suc n) = scripted xs n"
  "scripted [] n = Inl (Error ''no scripted answer'')"
  by (simp_all add: scripted_def)

lemma has_key_env: "k \<noteq> [] \<Longrightarrow> has_key (scripted_world (Some k) submitted answers) None"
  by (simp add: has_key_def or_else_def truthy_def scripted_world_def)


lemma run_completed:
  assumes "has_key w apiKey" and "completed w (veo_request prompt img mime ar) n final"
  shows "generateVeoVideo w apiKey prompt img mime ar =
     Some (case op_error final of
             Some err \<Rightarrow> Inl (Error (or_default (message err) ''Video generation failed''))
           | None \<Rightarrow>
               if \<not> truthy (videoUri final) then
                 Inl (Error ''No video URI returned from the API.'')
               else Inr (to_string (videoUri final) @ ''&key='' @
                         to_string (or_else apiKey (API_KEY w))),
           submitted_events (veo_request prompt img mime ar) @
           rounds (getVideosOperation w) (projr (generateVideos w (veo_request prompt img mime ar))) n)"
proof -
  from assms(2) obtain operation where
    s: "generateVideos w (veo_request prompt img mime ar) = Inr operation"
    by (auto simp: completed_def split: sum.splits)
  show ?thesis
    by (simp add: run_submitted [OF assms(1) s] loop_completed [OF assms(2) s] s
        del: rounds.simps split: option.splits)
qed




text \<open>Concrete runs against the scripted providers.\<close>

lemma three_polls_run:
  "generateVeoVideo three_polls_world None ''a cat'' ''AAAA'' ''image/png'' LANDSCAPE =
     Some (Inr ''https://video.example/v1?alt=media&key=SECRET'',
           submitted_events (veo_request ''a cat'' ''AAAA'' ''image/png'' LANDSCAPE) @
           poll_round running @ poll_round running @ poll_round running)"
proof -
  let ?w = three_polls_world
  let ?req = "veo_request ''a cat'' ''AAAA'' ''image/png'' LANDSCAPE"
  let ?fin = "finished ''https://video.example/v1?alt=media''"
  have k: "has_key ?w None"
    by (simp add: three_polls_world_def has_key_env)
  have s: "generateVideos ?w ?req = Inr running"
    by (simp add: three_polls_world_def scripted_world_simps)
  have g0: "getVideosOperation ?w 0 = Inr running"
    and g1: "getVideosOperation ?w (Suc 0) = Inr running"
    and g2: "getVideosOperation ?w (Suc (Suc 0)) = Inr ?fin"
    by (simp_all add: three_polls_world_def scripted_world_simps scripted_simps)
  have key: "API_KEY ?w = Some ''SECRET''"
    by (simp add: three_polls_world_def scripted_world_simps)
  have "pollingLoop (getVideosOperation ?w) 0 running (submitted_events ?req) =
        Some (Inr ?fin, submitted_events ?req @
              poll_round running @ poll_round running @ poll_round running)"
    by (simp add:
        pollingLoop_step [of running "getVideosOperation ?w" 0 running, OF running_simps(1) g0]
        pollingLoop_step [of running "getVideosOperation ?w" "Suc 0" running,
          OF running_simps(1) g1]
        pollingLoop_step [of running "getVideosOperation ?w" "Suc (Suc 0)" ?fin,
          OF running_simps(1) g2]
        pollingLoop_done [OF finished_simps(1)])
  then show ?thesis
    by (simp add: run_submitted [OF k s] finished_simps key truthy_def to_string_def
        or_else_def)
qed

lemma one_poll_run:
  "generateVeoVideo one_poll_world None ''a cat'' ''AAAA'' ''image/png'' LANDSCAPE =
     Some (Inr ''https://video.example/v1?alt=media&key=K'',
           [Progress ''Initializing video generation...'',
            GenerateVideosCall (veo_request ''a cat'' ''AAAA'' ''image/png'' LANDSCAPE),
            Progress ''Rendering video... This may take a moment.'',
            Wait 5000, Progress ''Still rendering...'', GetVideosOperationCall running])"
proof -
  let ?w = one_poll_world
  have k: "has_key ?w None"
    by (simp add: one_poll_world_def has_key_env)
  have c: "completed ?w (veo_request ''a cat'' ''AAAA'' ''image/png'' LANDSCAPE) (Suc 0)
             (finished ''https://video.example/v1?alt=media'')"
    by (simp add: completed_def one_poll_world_def scripted_world_simps scripted_simps
        running_simps finished_simps)
  show ?thesis
    by (subst run_completed [OF k c])
      (simp add: finished_simps truthy_def to_string_def or_else_def
        one_poll_world_def scripted_world_simps submitted_events_def poll_round_def)
qed


subsection \<open>The events of a run, returned or not\<close>

lemma pollingLoop_events_done:
  "is_done operation \<Longrightarrow> pollingLoop_events getOp n operation fuel = []"
  by (cases fuel) (simp_all add: is_done_def)

lemma pollingLoop_events_step:
  "\<not> is_done operation \<Longrightarrow>
   pollingLoop_events getOp n operation (Suc fuel) =
     poll_round operation @
     (case getOp n of
        Inl e \<Rightarrow> []
      | Inr operation' \<Rightarrow> pollingLoop_events getOp (Suc n) operation' fuel)"
  by (simp add: is_done_def poll_round_def)

text \<open>What a loop that returns has emitted is what the event reading gives for some fuel.\<close>

lemma pollingLoop_events_returned:
  "pollingLoop getOp n operation tr = Some y \<Longrightarrow>
   \<exists>fuel. snd y = tr @ pollingLoop_events getOp n operation fuel"
proof (induction rule: pollingLoop_induct)
  case (body pollingLoop getOp n operation tr y)
  show ?case
  proof (cases "is_done operation")
    case True
    with body.hyps have "snd y = tr @ pollingLoop_events getOp n operation 0"
      by (auto simp: is_done_def)
    then show ?thesis by (rule exI)
  next
    case nd: False
    show ?thesis
    proof (cases "getOp n")
      case (Inl e)
      with body.hyps nd have "snd y = tr @ poll_round operation"
        by (auto simp: is_done_def poll_round_def)
      with Inl nd have "snd y = tr @ pollingLoop_events getOp n operation (Suc 0)"
        by (simp add: pollingLoop_events_step del: pollingLoop_events.simps)
      then show ?thesis by (rule exI)
    next
      case (Inr operation')
      with body.hyps nd have rec: "pollingLoop getOp (Suc n) operation'
          (tr @ [Wait 5000, Progress ''Still rendering...'', GetVideosOperationCall operation])
            = Some y"
        by (simp add: is_done_def)
      from body.IH [OF rec] obtain fuel where
        "snd y = (tr @ [Wait 5000, Progress ''Still rendering...'',
                        GetVideosOperationCall operation]) @
                 pollingLoop_events getOp (Suc n) operation' fuel" by blast
      with Inr nd have "snd y = tr @ pollingLoop_events getOp n operation (Suc fuel)"
        by (simp add: pollingLoop_events_step del: pollingLoop_events.simps)
          (simp add: poll_round_def)
      then show ?thesis by (rule exI)
    qed
  qed
qed

text \<open>While the answers are pending, \<open>k\<close> rounds of fuel give the events of \<open>k\<close> rounds.\<close>

lemma pollingLoop_events_pending:
  "pending getOp k \<Longrightarrow> \<not> is_done operation \<Longrightarrow>
   pollingLoop_events getOp 0 operation (k + f) =
     rounds getOp operation k @ pollingLoop_events getOp k (passed getOp operation k) f"
proof (induction k arbitrary: f)
  case 0
  then show ?case by simp
next
  case (Suc k)
  from Suc.prems obtain operation' where p: "pending getOp k"
    and g: "getOp k = Inr operation'" and nd: "\<not> is_done operation'"
    by (auto split: sum.splits)
  have ndk: "\<not> is_done (passed getOp operation k)"
    using p Suc.prems(2) by (rule passed_not_done)
  have "pollingLoop_events getOp 0 operation (k + Suc f) =
      rounds getOp operation k @ pollingLoop_events getOp k (passed getOp operation k) (Suc f)"
    using p Suc.prems(2) by (rule Suc.IH)
  also have "pollingLoop_events getOp k (passed getOp operation k) (Suc f) =
      poll_round (passed getOp operation k) @ pollingLoop_events getOp (Suc k) operation' f"
    using g by (simp add: pollingLoop_events_step [OF ndk] del: pollingLoop_events.simps)
  finally show ?case using g by simp
qed

lemma pollingLoop_events_stopped:
  assumes "pending getOp k" "\<not> is_done operation"
    and "case getOp k of Inl e \<Rightarrow> True | Inr final \<Rightarrow> is_done final"
  shows "pollingLoop_events getOp 0 operation (Suc k + f) = rounds getOp operation (Suc k)"
proof -
  have ndk: "\<not> is_done (passed getOp operation k)"
    using assms(1,2) by (rule passed_not_done)
  have "pollingLoop_events getOp k (passed getOp operation k) (Suc f) =
      poll_round (passed getOp operation k)"
    using assms(3)
    by (simp add: pollingLoop_events_step [OF ndk] pollingLoop_events_done
        del: pollingLoop_events.simps split: sum.splits)
  with pollingLoop_events_pending [OF assms(1,2), of "Suc f"] show ?thesis by simp
qed

lemma first_not_pending:
  "\<not> pending getOp fuel \<Longrightarrow> \<exists>k<fuel. pending getOp k \<and> \<not> pending getOp (Suc k)"
proof (induction fuel)
  case 0
  then show ?case by simp
next
  case (Suc fuel)
  show ?case
  proof (cases "pending getOp fuel")
    case True
    with Suc.prems have "fuel < Suc fuel \<and> pending getOp fuel \<and> \<not> pending getOp (Suc fuel)"
      by simp
    then show ?thesis by blast
  next
    case False
    from Suc.IH [OF this] obtain k where "k < fuel" "pending getOp k" "\<not> pending getOp (Suc k)"
      by blast
    then have "k < Suc fuel \<and> pending getOp k \<and> \<not> pending getOp (Suc k)" by simp
    then show ?thesis by blast
  qed
qed

lemma pollingLoop_events_rounds:
  "\<exists>n\<le>fuel. pollingLoop_events getOp 0 operation fuel = rounds getOp operation n"
proof (cases "is_done operation")
  case True
  then have "pollingLoop_events getOp 0 operation fuel = rounds getOp operation 0"
    by (simp add: pollingLoop_events_done)
  then show ?thesis by blast
next
  case nd: False
  show ?thesis
  proof (cases "pending getOp fuel")
    case True
    from pollingLoop_events_pending [OF True nd, of 0]
    have "pollingLoop_events getOp 0 operation fuel = rounds getOp operation fuel" by simp
    then show ?thesis by blast
  next
    case False
    from first_not_pending [OF this] obtain k where k: "k < fuel" "pending getOp k"
      "\<not> pending getOp (Suc k)" by blast
    then have stop: "case getOp k of Inl e \<Rightarrow> True | Inr final \<Rightarrow> is_done final"
      by (simp split: sum.splits)
    from k(1) obtain f where f: "fuel = Suc k + f"
      by (metis Suc_leI le_Suc_ex)
    from pollingLoop_events_stopped [OF k(2) nd stop, of f] f k(1)
    have "Suc k \<le> fuel \<and> pollingLoop_events getOp 0 operation fuel = rounds getOp operation (Suc k)"
      by simp
    then show ?thesis by blast
  qed
qed

lemma events_no_key:
  "\<not> has_key w apiKey \<Longrightarrow> generateVeoVideo_events w apiKey prompt img mime ar fuel = []"
  by (simp add: generateVeoVideo_events_def getAiClient_no_key)

lemma events_submission_failed:
  "has_key w apiKey \<Longrightarrow> generateVideos w (veo_request prompt img mime ar) = Inl e \<Longrightarrow>
   generateVeoVideo_events w apiKey prompt img mime ar fuel =
     [Progress ''Initializing video generation...'',
      GenerateVideosCall (veo_request prompt img mime ar)]"
  by (simp add: generateVeoVideo_events_def getAiClient_key)

lemma events_submitted:
  "has_key w apiKey \<Longrightarrow> generateVideos w (veo_request prompt img mime ar) = Inr operation \<Longrightarrow>
   generateVeoVideo_events w apiKey prompt img mime ar fuel =
     submitted_events (veo_request prompt img mime ar) @
     pollingLoop_events (getVideosOperation w) 0 operation fuel"
  by (simp add: generateVeoVideo_events_def getAiClient_key submitted_events_def)

lemma events_of_returned_run:
  assumes "generateVeoVideo w apiKey prompt img mime ar = Some (r, tr)"
  shows "\<exists>fuel. tr = generateVeoVideo_events w apiKey prompt img mime ar fuel"
proof (cases "has_key w apiKey")
  case False
  with assms run_no_key [OF False, of prompt img mime ar]
  have "tr = generateVeoVideo_events w apiKey prompt img mime ar 0"
    by (simp add: events_no_key)
  then show ?thesis by (rule exI)
next
  case True
  show ?thesis
  proof (cases "generateVideos w (veo_request prompt img mime ar)")
    case (Inl e)
    with assms run_submission_failed [OF True Inl]
    have "tr = generateVeoVideo_events w apiKey prompt img mime ar 0"
      by (simp add: events_submission_failed [OF True Inl])
    then show ?thesis by (rule exI)
  next
    case (Inr operation)
    let ?req = "veo_request prompt img mime ar"
    from assms obtain r' where
      loop: "pollingLoop (getVideosOperation w) 0 operation (submitted_events ?req) = Some (r', tr)"
      unfolding run_submitted [OF True Inr]
      by (auto split: option.splits sum.splits prod.splits if_splits)
    from pollingLoop_events_returned [OF loop] obtain fuel where
      "tr = submitted_events ?req @ pollingLoop_events (getVideosOperation w) 0 operation fuel"
      by auto
    then have "tr = generateVeoVideo_events w apiKey prompt img mime ar fuel"
      by (simp add: events_submitted [OF True Inr])
    then show ?thesis by (rule exI)
  qed
qed

lemma never_done_run:
  "generateVeoVideo never_done_world None ''a cat'' ''AAAA'' ''image/png'' LANDSCAPE = None"
proof (rule ccontr)
  let ?w = never_done_world
  let ?req = "veo_request ''a cat'' ''AAAA'' ''image/png'' LANDSCAPE"
  assume "generateVeoVideo ?w None ''a cat'' ''AAAA'' ''image/png'' LANDSCAPE \<noteq> None"
  then obtain r tr where
    run: "generateVeoVideo ?w None ''a cat'' ''AAAA'' ''image/png'' LANDSCAPE = Some (r, tr)"
    by auto
  have k: "has_key ?w None"
    by (simp add: has_key_def or_else_def truthy_def never_done_world_def)
  have s: "generateVideos ?w ?req = Inr running"
    by (simp add: never_done_world_def)
  have g: "\<And>j. getVideosOperation ?w j = Inr running"
    by (simp add: never_done_world_def)
  from run obtain r' where
    loop: "pollingLoop (getVideosOperation ?w) 0 running (submitted_events ?req) = Some (r', tr)"
    unfolding run_submitted [OF k s]
    by (auto split: option.splits sum.splits prod.splits if_splits)
  from pollingLoop_returns [OF loop running_simps(1)] g running_simps(1) show False
    by auto
qed

subsection \<open>The claims about \<open>generateVeoVideo\<close>\<close>

text \<open>
  C1, as amended.  When the job was submitted with a key and not done, the first \<open>k\<close>
  status answers are pending, and the next answer is done with its error field set, the
  run rejects with \<open>Error\<close> of that error's message (\<open>Video generation failed\<close> when the
  message is absent or empty) after exactly \<open>k + 1\<close> status calls: none follows the answer
  that carries the error.
\<close>

theorem done_error_ends_polling:
  assumes "has_key w apiKey"
    and "generateVideos w (veo_request prompt img mime ar) = Inr operation"
    and "\<not> is_done operation"
    and "pending (getVideosOperation w) k"
    and "getVideosOperation w k = Inr final"
    and "is_done final"
    and "op_error final = Some err"
  shows "\<exists>tr. generateVeoVideo w apiKey prompt img mime ar =
                Some (Inl (Error (or_default (message err) ''Video generation failed'')), tr) \<and>
              poll_calls tr = Suc k \<and>
              tr = submitted_events (veo_request prompt img mime ar) @
                   rounds (getVideosOperation w) operation (Suc k)"
proof -
  let ?tr = "submitted_events (veo_request prompt img mime ar) @
             rounds (getVideosOperation w) operation (Suc k)"
  have "pollingLoop (getVideosOperation w) 0 operation
          (submitted_events (veo_request prompt img mime ar)) = Some (Inr final, ?tr)"
    using assms(4,3,5,6) by (rule pollingLoop_ends_done)
  with assms(1,2,7) have "generateVeoVideo w apiKey prompt img mime ar =
      Some (Inl (Error (or_default (message err) ''Video generation failed'')), ?tr)"
    by (simp add: run_submitted del: rounds.simps)
  moreover have "poll_calls ?tr = Suc k"
    by (simp add: poll_calls_rounds poll_calls_submitted del: rounds.simps)
  ultimately show ?thesis by blast
qed


theorem done_error_ends_polling_witness:
  "has_key (scripted_world (Some ''K'') (Inr running) [Inr running, Inr (failed (Some ''quota''))]) None \<and>
   pending (scripted [Inr running, Inr (failed (Some ''quota''))]) 1 \<and>
   (\<exists>tr. generateVeoVideo
            (scripted_world (Some ''K'') (Inr running) [Inr running, Inr (failed (Some ''quota''))])
            None ''a cat'' ''AAAA'' ''image/png'' LANDSCAPE = Some (Inl (Error ''quota''), tr) \<and>
         poll_calls tr = 2)"
  using done_error_ends_polling
    [of "scripted_world (Some ''K'') (Inr running) [Inr running, Inr (failed (Some ''quota''))]"
        None "''a cat''" "''AAAA''" "''image/png''" LANDSCAPE running 1
        "failed (Some ''quota'')" "\<lparr>message = Some ''quota''\<rparr>"]
  by (simp add: has_key_env scripted_world_simps scripted_simps running_simps failed_simps
      or_default_def)

text \<open>
  C1 as stated fails for an answer that has its error field set but is not done: the
  loop looks at \<^verbatim>\<open>done\<close> only, polls again, and here resolves with the finished job's
  address after two status calls.
\<close>

theorem error_not_done_counterexample:
  "getVideosOperation error_while_running_world 0 = Inr (running_with_error ''quota'') \<and>
   op_error (running_with_error ''quota'') = Some \<lparr>message = Some ''quota''\<rparr> \<and>
   generateVeoVideo error_while_running_world None ''a cat'' ''AAAA'' ''image/png'' LANDSCAPE =
     Some (Inr ''https://video.example/v1?alt=media&key=K'',
           submitted_events (veo_request ''a cat'' ''AAAA'' ''image/png'' LANDSCAPE) @
           poll_round running @ poll_round (running_with_error ''quota'')) \<and>
   poll_calls (submitted_events (veo_request ''a cat'' ''AAAA'' ''image/png'' LANDSCAPE) @
               poll_round running @ poll_round (running_with_error ''quota'')) = 2"
proof -
  let ?w = error_while_running_world
  let ?req = "veo_request ''a cat'' ''AAAA'' ''image/png'' LANDSCAPE"
  let ?fin = "finished ''https://video.example/v1?alt=media''"
  have k: "has_key ?w None"
    by (simp add: error_while_running_world_def has_key_env)
  have s: "generateVideos ?w ?req = Inr running"
    by (simp add: error_while_running_world_def scripted_world_simps)
  have g0: "getVideosOperation ?w 0 = Inr (running_with_error ''quota'')"
    and g1: "getVideosOperation ?w (Suc 0) = Inr ?fin"
    by (simp_all add: error_while_running_world_def scripted_world_simps scripted_simps)
  have key: "API_KEY ?w = Some ''K''"
    by (simp add: error_while_running_world_def scripted_world_simps)
  have "pollingLoop (getVideosOperation ?w) 0 running (submitted_events ?req) =
        Some (Inr ?fin, submitted_events ?req @
              poll_round running @ poll_round (running_with_error ''quota''))"
    by (simp add:
        pollingLoop_step [of running "getVideosOperation ?w" 0 "running_with_error ''quota''",
          OF running_simps(1) g0]
        pollingLoop_step [of "running_with_error ''quota''" "getVideosOperation ?w" "Suc 0"
          ?fin, OF running_with_error_simps(1) g1]
        pollingLoop_done [OF finished_simps(1)])
  then have "generateVeoVideo ?w None ''a cat'' ''AAAA'' ''image/png'' LANDSCAPE =
     Some (Inr ''https://video.example/v1?alt=media&key=K'',
           submitted_events ?req @
           poll_round running @ poll_round (running_with_error ''quota''))"
    by (simp add: run_submitted [OF k s] finished_simps key truthy_def to_string_def
        or_else_def)
  moreover have "poll_calls (submitted_events ?req @
               poll_round running @ poll_round (running_with_error ''quota'')) = 2"
    by (simp add: poll_calls_def submitted_events_def poll_round_def)
  ultimately show ?thesis using g0 by (simp add: running_with_error_simps)
qed

text \<open>
  C2, as amended.  With a key, a submission that returns a handle that is not done, and
  the status answers not done, not done, done with a result address \<open>u\<close> and no error,
  the run makes exactly three status calls and resolves with \<open>u\<close> followed by
  \<open>&key=\<close> and the effective API key.
\<close>

theorem three_polls_then_result:
  assumes "has_key w apiKey"
    and "generateVideos w (veo_request prompt img mime ar) = Inr h"
    and "\<not> is_done h"
    and "getVideosOperation w 0 = Inr a" and "\<not> is_done a"
    and "getVideosOperation w 1 = Inr b" and "\<not> is_done b"
    and "getVideosOperation w 2 = Inr c" and "is_done c"
    and "op_error c = None" and "videoUri c = Some u" and "u \<noteq> []"
  shows "generateVeoVideo w apiKey prompt img mime ar =
           Some (Inr (u @ ''&key='' @ to_string (or_else apiKey (API_KEY w))),
                 submitted_events (veo_request prompt img mime ar) @
                 poll_round h @ poll_round a @ poll_round b) \<and>
         poll_calls (submitted_events (veo_request prompt img mime ar) @
                     poll_round h @ poll_round a @ poll_round b) = 3"
proof -
  let ?g = "getVideosOperation w"
  let ?pre = "submitted_events (veo_request prompt img mime ar)"
  have g1: "?g (Suc 0) = Inr b" and g2: "?g (Suc (Suc 0)) = Inr c"
    using assms(6,8) by (simp_all add: numeral_2_eq_2)
  have "pollingLoop ?g 0 h ?pre = Some (Inr c, ?pre @ poll_round h @ poll_round a @ poll_round b)"
    by (simp add:
        pollingLoop_step [of h ?g 0 a, OF assms(3,4)]
        pollingLoop_step [of a ?g "Suc 0" b, OF assms(5) g1]
        pollingLoop_step [of b ?g "Suc (Suc 0)" c, OF assms(7) g2]
        pollingLoop_done [OF assms(9)])
  then have "generateVeoVideo w apiKey prompt img mime ar =
           Some (Inr (u @ ''&key='' @ to_string (or_else apiKey (API_KEY w))),
                 ?pre @ poll_round h @ poll_round a @ poll_round b)"
    using assms(10,11,12) by (simp add: run_submitted [OF assms(1,2)] truthy_def to_string_def)
  moreover have "poll_calls (?pre @ poll_round h @ poll_round a @ poll_round b) = 3"
    by (simp add: poll_calls_def submitted_events_def poll_round_def)
  ultimately show ?thesis by simp
qed

theorem three_polls_then_result_witness:
  "has_key three_polls_world None \<and>
   generateVideos three_polls_world (veo_request ''a cat'' ''AAAA'' ''image/png'' LANDSCAPE) =
     Inr running \<and>
   getVideosOperation three_polls_world 2 = Inr (finished ''https://video.example/v1?alt=media'') \<and>
   generateVeoVideo three_polls_world None ''a cat'' ''AAAA'' ''image/png'' LANDSCAPE =
     Some (Inr ''https://video.example/v1?alt=media&key=SECRET'',
           submitted_events (veo_request ''a cat'' ''AAAA'' ''image/png'' LANDSCAPE) @
           poll_round running @ poll_round running @ poll_round running)"
  using three_polls_then_result
    [of three_polls_world None "''a cat''" "''AAAA''" "''image/png''" LANDSCAPE running
        running running "finished ''https://video.example/v1?alt=media''"
        "''https://video.example/v1?alt=media''"]
  by (simp add: three_polls_world_def has_key_env scripted_world_simps scripted_simps
      running_simps finished_simps numeral_2_eq_2 to_string_def or_else_def truthy_def)

text \<open>
  C2 as stated fails on what the run resolves with: after the three status calls the
  value is the result address with \<open>&key=SECRET\<close> appended, not the address itself.
\<close>

theorem three_polls_counterexample:
  "videoUri (finished ''https://video.example/v1?alt=media'') =
     Some ''https://video.example/v1?alt=media'' \<and>
   map_option fst
     (generateVeoVideo three_polls_world None ''a cat'' ''AAAA'' ''image/png'' LANDSCAPE) =
     Some (Inr ''https://video.example/v1?alt=media&key=SECRET'') \<and>
   map_option fst
     (generateVeoVideo three_polls_world None ''a cat'' ''AAAA'' ''image/png'' LANDSCAPE) \<noteq>
     Some (Inr ''https://video.example/v1?alt=media'')"
  by (simp add: three_polls_run finished_simps)

text \<open>
  C3, as amended.  In every run, returned or still polling, the events emitted when the
  loop has gone round at most \<open>fuel\<close> times are: none without an API key; otherwise the
  progress message \<open>Initializing video generation...\<close>, the submission, then, when the
  submission returned, the progress message \<open>Rendering video... This may take a
  moment.\<close> followed by one round per status call made, each round being the 5000 ms
  wait, the progress message \<open>Still rendering...\<close> and the call.  So a progress message
  precedes the submission and each wait, the one inside a round comes after the wait,
  none follows the last status call, and no message other than these three is emitted.
  The events of a run that returns are these for some \<open>fuel\<close>, and while the answers
  are not done every one of the \<open>k\<close> rounds is there.
\<close>

theorem progress_events_of_run:
  "(\<forall>fuel. \<exists>n\<le>fuel.
      generateVeoVideo_events w apiKey prompt img mime ar fuel =
        (if has_key w apiKey then
           Progress ''Initializing video generation...'' #
           GenerateVideosCall (veo_request prompt img mime ar) #
           (case generateVideos w (veo_request prompt img mime ar) of
              Inl e \<Rightarrow> []
            | Inr operation \<Rightarrow>
                Progress ''Rendering video... This may take a moment.'' #
                rounds (getVideosOperation w) operation n)
         else []) \<and>
      poll_calls (generateVeoVideo_events w apiKey prompt img mime ar fuel) = n \<and>
      (0 < n \<longrightarrow>
         progress_after_last_call (generateVeoVideo_events w apiKey prompt img mime ar fuel) = []) \<and>
      set (List.map_filter progress_message
             (generateVeoVideo_events w apiKey prompt img mime ar fuel)) \<subseteq>
        {''Initializing video generation...'',
         ''Rendering video... This may take a moment.'', ''Still rendering...''}) \<and>
   (\<forall>r tr. generateVeoVideo w apiKey prompt img mime ar = Some (r, tr) \<longrightarrow>
      (\<exists>fuel. tr = generateVeoVideo_events w apiKey prompt img mime ar fuel)) \<and>
   (\<forall>operation k.
      has_key w apiKey \<and> generateVideos w (veo_request prompt img mime ar) = Inr operation \<and>
      \<not> is_done operation \<and> pending (getVideosOperation w) k \<longrightarrow>
      generateVeoVideo_events w apiKey prompt img mime ar k =
        submitted_events (veo_request prompt img mime ar) @
        rounds (getVideosOperation w) operation k)"
proof (intro conjI allI impI)
  fix fuel
  let ?req = "veo_request prompt img mime ar"
  let ?ev = "generateVeoVideo_events w apiKey prompt img mime ar fuel"
  let ?three = "{''Initializing video generation...'',
         ''Rendering video... This may take a moment.'', ''Still rendering...''}"
  show "\<exists>n\<le>fuel.
      ?ev =
        (if has_key w apiKey then
           Progress ''Initializing video generation...'' # GenerateVideosCall ?req #
           (case generateVideos w ?req of
              Inl e \<Rightarrow> []
            | Inr operation \<Rightarrow>
                Progress ''Rendering video... This may take a moment.'' #
                rounds (getVideosOperation w) operation n)
         else []) \<and>
      poll_calls ?ev = n \<and> (0 < n \<longrightarrow> progress_after_last_call ?ev = []) \<and>
      set (List.map_filter progress_message ?ev) \<subseteq> ?three"
  proof (cases "has_key w apiKey")
    case False
    have ev: "?ev = []"
      using False by (rule events_no_key)
    show ?thesis
      unfolding ev using False
      by (intro exI [of _ 0] conjI) (simp_all add: poll_calls_def List.map_filter_def)
  next
    case True
    show ?thesis
    proof (cases "generateVideos w ?req")
      case (Inl e)
      show ?thesis
        unfolding events_submission_failed [OF True Inl] using True Inl
        by (intro exI [of _ 0] conjI) (simp_all add: poll_calls_def List.map_filter_def)
    next
      case (Inr operation)
      from pollingLoop_events_rounds [of fuel "getVideosOperation w" operation] obtain n where
        n: "n \<le> fuel" and
        ev: "?ev = submitted_events ?req @ rounds (getVideosOperation w) operation n"
        by (auto simp: events_submitted [OF True Inr])
      have shape: "?ev =
        (if has_key w apiKey then
           Progress ''Initializing video generation...'' # GenerateVideosCall ?req #
           (case generateVideos w ?req of
              Inl e \<Rightarrow> []
            | Inr operation \<Rightarrow>
                Progress ''Rendering video... This may take a moment.'' #
                rounds (getVideosOperation w) operation n)
         else [])"
        unfolding ev using True Inr by (simp add: submitted_events_def)
      have calls: "poll_calls ?ev = n"
        unfolding ev by (simp add: poll_calls_rounds poll_calls_submitted)
      have after: "0 < n \<longrightarrow> progress_after_last_call ?ev = []"
      proof
        assume "0 < n"
        then obtain k where "n = Suc k" by (cases n) auto
        then show "progress_after_last_call ?ev = []"
          unfolding ev by (simp only: progress_after_rounds)
      qed
      have msgs: "set (List.map_filter progress_message ?ev) \<subseteq> ?three"
      proof -
        have "List.map_filter progress_message ?ev =
            [''Initializing video generation...'',
             ''Rendering video... This may take a moment.''] @
            List.map_filter progress_message (rounds (getVideosOperation w) operation n)"
          unfolding ev by (simp add: submitted_events_def List.map_filter_def)
        with progress_rounds [of "getVideosOperation w" operation n] show ?thesis by auto
      qed
      show ?thesis
        by (intro exI [of _ n] conjI) (rule n shape calls after msgs)+
    qed
  qed
next
  fix r tr
  assume "generateVeoVideo w apiKey prompt img mime ar = Some (r, tr)"
  then show "\<exists>fuel. tr = generateVeoVideo_events w apiKey prompt img mime ar fuel"
    by (rule events_of_returned_run)
next
  fix operation k
  assume a: "has_key w apiKey \<and>
      generateVideos w (veo_request prompt img mime ar) = Inr operation \<and>
      \<not> is_done operation \<and> pending (getVideosOperation w) k"
  then have k: "has_key w apiKey"
    and s: "generateVideos w (veo_request prompt img mime ar) = Inr operation"
    and nd: "\<not> is_done operation" and p: "pending (getVideosOperation w) k"
    by simp_all
  from pollingLoop_events_pending [OF p nd, of 0]
  show "generateVeoVideo_events w apiKey prompt img mime ar k =
        submitted_events (veo_request prompt img mime ar) @
        rounds (getVideosOperation w) operation k"
    by (simp add: events_submitted [OF k s])
qed

theorem progress_events_of_run_witness:
  "generateVeoVideo never_done_world None ''a cat'' ''AAAA'' ''image/png'' LANDSCAPE = None \<and>
   has_key never_done_world None \<and>
   generateVideos never_done_world (veo_request ''a cat'' ''AAAA'' ''image/png'' LANDSCAPE) =
     Inr running \<and>
   \<not> is_done running \<and>
   pending (getVideosOperation never_done_world) 2 \<and>
   generateVeoVideo_events never_done_world None ''a cat'' ''AAAA'' ''image/png'' LANDSCAPE 2 =
     [Progress ''Initializing video generation...'',
      GenerateVideosCall (veo_request ''a cat'' ''AAAA'' ''image/png'' LANDSCAPE),
      Progress ''Rendering video... This may take a moment.'',
      Wait 5000, Progress ''Still rendering...'', GetVideosOperationCall running,
      Wait 5000, Progress ''Still rendering...'', GetVideosOperationCall running] \<and>
   (\<exists>fuel.
      [Progress ''Initializing video generation...'',
       GenerateVideosCall (veo_request ''a cat'' ''AAAA'' ''image/png'' LANDSCAPE),
       Progress ''Rendering video... This may take a moment.'',
       Wait 5000, Progress ''Still rendering...'', GetVideosOperationCall running] =
      generateVeoVideo_events one_poll_world None ''a cat'' ''AAAA'' ''image/png'' LANDSCAPE fuel)"
proof -
  let ?w = never_done_world
  have k: "has_key ?w None"
    by (simp add: has_key_def or_else_def truthy_def never_done_world_def)
  have s: "generateVideos ?w (veo_request ''a cat'' ''AAAA'' ''image/png'' LANDSCAPE) = Inr running"
    by (simp add: never_done_world_def)
  have p: "pending (getVideosOperation ?w) 2"
    by (simp add: never_done_world_def numeral_2_eq_2 running_simps)
  note hang = progress_events_of_run
    [of ?w None "''a cat''" "''AAAA''" "''image/png''" LANDSCAPE,
     THEN conjunct2, THEN conjunct2, rule_format,
     OF conjI [OF k conjI [OF s conjI [OF running_simps(1) p]]]]
  note ret = progress_events_of_run
    [of one_poll_world None "''a cat''" "''AAAA''" "''image/png''" LANDSCAPE,
     THEN conjunct2, THEN conjunct1, rule_format, OF one_poll_run]
  from hang have "generateVeoVideo_events ?w None ''a cat'' ''AAAA'' ''image/png'' LANDSCAPE 2 =
     [Progress ''Initializing video generation...'',
      GenerateVideosCall (veo_request ''a cat'' ''AAAA'' ''image/png'' LANDSCAPE),
      Progress ''Rendering video... This may take a moment.'',
      Wait 5000, Progress ''Still rendering...'', GetVideosOperationCall running,
      Wait 5000, Progress ''Still rendering...'', GetVideosOperationCall running]"
    by (simp add: submitted_events_def poll_round_def numeral_2_eq_2 never_done_world_def)
  with never_done_run k s p ret running_simps(1) show ?thesis by simp
qed

text \<open>
  C3 as stated fails on its last part: in this run, which resolves after one status call,
  the last event is the status call itself; no progress message is emitted after the
  loop ends, and none of the messages emitted reports completion.
\<close>

theorem no_done_progress_counterexample:
  "generateVeoVideo one_poll_world None ''a cat'' ''AAAA'' ''image/png'' LANDSCAPE =
     Some (Inr ''https://video.example/v1?alt=media&key=K'',
           [Progress ''Initializing video generation...'',
            GenerateVideosCall (veo_request ''a cat'' ''AAAA'' ''image/png'' LANDSCAPE),
            Progress ''Rendering video... This may take a moment.'',
            Wait 5000, Progress ''Still rendering...'', GetVideosOperationCall running]) \<and>
   progress_after_last_call
     [Progress ''Initializing video generation...'',
      GenerateVideosCall (veo_request ''a cat'' ''AAAA'' ''image/png'' LANDSCAPE),
      Progress ''Rendering video... This may take a moment.'',
      Wait 5000, Progress ''Still rendering...'', GetVideosOperationCall running] = [] \<and>
   List.map_filter progress_message
     [Progress ''Initializing video generation...'',
      GenerateVideosCall (veo_request ''a cat'' ''AAAA'' ''image/png'' LANDSCAPE),
      Progress ''Rendering video... This may take a moment.'',
      Wait 5000, Progress ''Still rendering...'', GetVideosOperationCall running] =
     [''Initializing video generation...'', ''Rendering video... This may take a moment.'',
      ''Still rendering...'']"
  by (simp add: one_poll_run progress_after_last_call_def List.map_filter_def)




text \<open>
  C9.  A run that resolves returns the video address of the done operation followed by
  \<open>&key=\<close> and the effective API key, which is the explicit key when one is supplied
  and the environment key otherwise; so the returned string is never the provider's
  address itself, and it contains the key.
\<close>

theorem returned_url_embeds_key:
  assumes "generateVeoVideo w apiKey prompt img mime ar = Some (Inr url, tr)"
  shows "\<exists>n final u key.
           completed w (veo_request prompt img mime ar) n final \<and>
           videoUri final = Some u \<and>
           or_else apiKey (API_KEY w) = Some key \<and> key \<noteq> [] \<and>
           (if truthy apiKey then apiKey = Some key else API_KEY w = Some key) \<and>
           url = u @ ''&key='' @ key \<and> url \<noteq> u"
proof -
  let ?req = "veo_request prompt img mime ar"
  have k: "has_key w apiKey"
  proof (rule ccontr)
    assume "\<not> has_key w apiKey"
    from run_no_key [OF this, of prompt img mime ar] assms show False by simp
  qed
  then obtain key where key: "or_else apiKey (API_KEY w) = Some key" "key \<noteq> []"
    by (auto simp: has_key_def truthy_def split: option.splits)
  then have src: "if truthy apiKey then apiKey = Some key else API_KEY w = Some key"
    by (simp add: or_else_def split: if_splits)
  obtain operation where s: "generateVideos w ?req = Inr operation"
    using assms run_submission_failed [OF k, of prompt img mime ar]
    by (cases "generateVideos w ?req") auto
  note run = run_submitted [OF k s]
  from assms obtain r where
    loop: "pollingLoop (getVideosOperation w) 0 operation (submitted_events ?req) = Some (r, tr)"
    unfolding run by (auto split: option.splits sum.splits prod.splits if_splits)
  from assms loop obtain final where r: "r = Inr final"
    unfolding run by (cases r) auto
  from loop_returns_cases [OF loop s] r obtain n where c: "completed w ?req n final"
    by auto
  from assms loop r obtain u where u: "videoUri final = Some u"
    and url: "url = u @ ''&key='' @ key"
    unfolding run using key
    by (auto simp: truthy_def to_string_def split: option.splits if_splits)
  have "url \<noteq> u" using url by simp
  with c u key src url show ?thesis by blast
qed

theorem returned_url_embeds_key_witness:
  "generateVeoVideo three_polls_world None ''a cat'' ''AAAA'' ''image/png'' LANDSCAPE =
     Some (Inr ''https://video.example/v1?alt=media&key=SECRET'',
           submitted_events (veo_request ''a cat'' ''AAAA'' ''image/png'' LANDSCAPE) @
           poll_round running @ poll_round running @ poll_round running) \<and>
   (\<exists>n final u key.
      completed three_polls_world (veo_request ''a cat'' ''AAAA'' ''image/png'' LANDSCAPE) n final \<and>
      videoUri final = Some u \<and> API_KEY three_polls_world = Some key \<and>
      ''https://video.example/v1?alt=media&key=SECRET'' = u @ ''&key='' @ key)"
proof -
  from returned_url_embeds_key [OF three_polls_run] have "\<exists>n final u key.
      completed three_polls_world (veo_request ''a cat'' ''AAAA'' ''image/png'' LANDSCAPE) n final \<and>
      videoUri final = Some u \<and> API_KEY three_polls_world = Some key \<and>
      ''https://video.example/v1?alt=media&key=SECRET'' = u @ ''&key='' @ key"
    by (auto simp: truthy_def)
  with three_polls_run show ?thesis by simp
qed

text \<open>
  C10.  When neither the explicit key nor the environment key is present (absent or
  empty), each of the four generation operations rejects with the \<open>API Key not found\<close>
  error and the run has no event: no provider request and no progress message.
\<close>

theorem api_key_required:
  assumes "\<not> truthy apiKey" and "\<not> truthy (API_KEY w)"
  shows "enhancePrompt w apiKey input =
           (Inl (Error ''API Key not found. Please select a project or enter a key in settings.''),
            []) \<and>
         generateVeoVideo w apiKey prompt img mime ar =
           Some (Inl (Error ''API Key not found. Please select a project or enter a key in settings.''),
                 []) \<and>
         generateTextToSpeech w apiKey txt voiceName =
           (Inl (Error ''API Key not found. Please select a project or enter a key in settings.''),
            []) \<and>
         generateClonedSpeech w apiKey txt audioBase64 audioMime =
           (Inl (Error ''API Key not found. Please select a project or enter a key in settings.''),
            [])"
proof -
  from assms have "\<not> has_key w apiKey"
    by (simp add: has_key_def or_else_def)
  then show ?thesis
    by (simp add: enhancePrompt_def generateTextToSpeech_def generateClonedSpeech_def
        run_no_key getAiClient_no_key)
qed

theorem api_key_required_witness:
  "\<not> truthy None \<and> \<not> truthy (API_KEY (scripted_world None (Inr running) [])) \<and>
   enhancePrompt (scripted_world None (Inr running) []) None ''a cat'' =
     (Inl (Error ''API Key not found. Please select a project or enter a key in settings.''), []) \<and>
   generateVeoVideo (scripted_world None (Inr running) []) None ''a cat'' ''AAAA'' ''image/png''
       LANDSCAPE =
     Some (Inl (Error ''API Key not found. Please select a project or enter a key in settings.''),
           []) \<and>
   generateTextToSpeech (scripted_world None (Inr running) []) None ''hello'' None =
     (Inl (Error ''API Key not found. Please select a project or enter a key in settings.''), []) \<and>
   generateClonedSpeech (scripted_world None (Inr running) []) None ''hello'' ''AAAA''
       ''audio/wav'' =
     (Inl (Error ''API Key not found. Please select a project or enter a key in settings.''), [])"
  using api_key_required [of None "scripted_world None (Inr running) []" "''a cat''" "''a cat''"
      "''AAAA''" "''image/png''" LANDSCAPE "''hello''" None "''AAAA''" "''audio/wav''"]
  by (simp add: truthy_def scripted_world_simps)

end
